theory Spec2Isabelle
  imports Complex_Main "HOL-Library.Sublist"
begin

section \<open>Strings\<close>

text \<open>
  A Python \<open>str\<close> is modelled as a \<open>string\<close>, one \<open>char\<close> per code point, so the
  model covers the command texts whose code points are below 256. The character classes
  below are Python's own on that range.
\<close>

definition code :: "char \<Rightarrow> nat" where
  "code c = of_char c"

text \<open>\<open>str.isspace\<close> on one character; the class \<open>\s\<close> of \<open>re\<close> is the same set.\<close>

definition isspace :: "char \<Rightarrow> bool" where
  "isspace c = ((9 \<le> code c \<and> code c \<le> 13) \<or> (28 \<le> code c \<and> code c \<le> 32)
                 \<or> code c = 133 \<or> code c = 160)"

text \<open>The class \<open>\w\<close> of \<open>re\<close>: alphanumeric characters and the underscore.\<close>

definition isword :: "char \<Rightarrow> bool" where
  "isword c = ((48 \<le> code c \<and> code c \<le> 57) \<or> (65 \<le> code c \<and> code c \<le> 90)
                \<or> code c = 95 \<or> (97 \<le> code c \<and> code c \<le> 122)
                \<or> code c = 170 \<or> code c = 178 \<or> code c = 179 \<or> code c = 181
                \<or> code c = 185 \<or> code c = 186 \<or> (188 \<le> code c \<and> code c \<le> 190)
                \<or> (192 \<le> code c \<and> code c \<le> 214) \<or> (216 \<le> code c \<and> code c \<le> 246)
                \<or> (248 \<le> code c \<and> code c \<le> 255))"

text \<open>The code point of the lower-case form of a character, as \<open>re.IGNORECASE\<close> compares.\<close>

definition lower_code :: "char \<Rightarrow> nat" where
  "lower_code c = (if (65 \<le> code c \<and> code c \<le> 90)
                      \<or> (192 \<le> code c \<and> code c \<le> 222 \<and> code c \<noteq> 215)
                   then code c + 32 else code c)"

text \<open>\<open>s.startswith(p)\<close>.\<close>

fun startswith :: "string \<Rightarrow> string \<Rightarrow> bool" where
  "startswith s [] = True"
| "startswith [] (p # ps) = False"
| "startswith (x # xs) (p # ps) = (x = p \<and> startswith xs ps)"

text \<open>\<open>p in s\<close> on strings: \<open>p\<close> occurs in \<open>s\<close> as a contiguous run.\<close>

fun isin :: "string \<Rightarrow> string \<Rightarrow> bool" where
  "isin p [] = startswith [] p"
| "isin p (x # xs) = (startswith (x # xs) p \<or> isin p xs)"

text \<open>\<open>s.strip()\<close>: white space removed at both ends.\<close>

definition strip :: "string \<Rightarrow> string" where
  "strip s = rev (dropWhile isspace (rev (dropWhile isspace s)))"

text \<open>\<open>s.split('\n')\<close>: the pieces between line feeds; never an empty list.\<close>

fun split_lines :: "string \<Rightarrow> string list" where
  "split_lines [] = [[]]"
| "split_lines (c # cs) =
     (if c = CHR 0x0A then [] # split_lines cs
      else (case split_lines cs of
              [] \<Rightarrow> [[c]]
            | l # ls \<Rightarrow> (c # l) # ls))"

section \<open>Regular expressions\<close>

text \<open>
  The patterns of the program use literals, the classes \<open>\s\<close>, \<open>\w\<close> and \<open>.\<close>, and the
  quantifiers \<open>?\<close>, \<open>*\<close> and \<open>+\<close> on one character. A pattern is the sequence of its
  quantified items; \<open>pattern_text\<close> writes it back in the syntax of \<open>re\<close>.
\<close>

datatype cclass = Lit char | Space | Word | AnyChar

datatype quant = Once | Opt | Star | Plus

type_synonym regex = "(cclass \<times> quant) list"

definition backslash :: char where
  "backslash = CHR 0x5C"

definition cclass_text :: "cclass \<Rightarrow> string" where
  "cclass_text k =
     (case k of
        Lit c \<Rightarrow> (if c \<in> set ''.*+?|()[]{}^$'' \<or> c = backslash then [backslash, c] else [c])
      | Space \<Rightarrow> [backslash, CHR ''s'']
      | Word \<Rightarrow> [backslash, CHR ''w'']
      | AnyChar \<Rightarrow> ''.'')"

definition quant_text :: "quant \<Rightarrow> string" where
  "quant_text q = (case q of Once \<Rightarrow> [] | Opt \<Rightarrow> ''?'' | Star \<Rightarrow> ''*'' | Plus \<Rightarrow> ''+'')"

definition pattern_text :: "regex \<Rightarrow> string" where
  "pattern_text r = concat (map (\<lambda>(k, q). cclass_text k @ quant_text q) r)"

text \<open>
  One character against one class. With \<open>ignorecase\<close> a literal matches in either case;
  \<open>.\<close> matches everything but the line feed.
\<close>

definition cclass_match :: "bool \<Rightarrow> cclass \<Rightarrow> char \<Rightarrow> bool" where
  "cclass_match ignorecase k x =
     (case k of
        Lit c \<Rightarrow> (if ignorecase then lower_code c = lower_code x else c = x)
      | Space \<Rightarrow> isspace x
      | Word \<Rightarrow> isword x
      | AnyChar \<Rightarrow> x \<noteq> CHR 0x0A)"

text \<open>\<open>match_here r s\<close>: some prefix of \<open>s\<close> matches the whole of \<open>r\<close>.\<close>

fun match_here :: "bool \<Rightarrow> regex \<Rightarrow> string \<Rightarrow> bool" where
  "match_here ic [] s = True"
| "match_here ic ((k, Once) # r) [] = False"
| "match_here ic ((k, Once) # r) (x # xs) = (cclass_match ic k x \<and> match_here ic r xs)"
| "match_here ic ((k, Opt) # r) [] = match_here ic r []"
| "match_here ic ((k, Opt) # r) (x # xs) =
     ((cclass_match ic k x \<and> match_here ic r xs) \<or> match_here ic r (x # xs))"
| "match_here ic ((k, Star) # r) [] = match_here ic r []"
| "match_here ic ((k, Star) # r) (x # xs) =
     ((cclass_match ic k x \<and> match_here ic ((k, Star) # r) xs) \<or> match_here ic r (x # xs))"
| "match_here ic ((k, Plus) # r) [] = False"
| "match_here ic ((k, Plus) # r) (x # xs) =
     (cclass_match ic k x \<and> match_here ic ((k, Star) # r) xs)"

text \<open>\<open>re.search(r, s)\<close> as a truth value: \<open>r\<close> matches at some position of \<open>s\<close>.\<close>

fun re_search :: "bool \<Rightarrow> regex \<Rightarrow> string \<Rightarrow> bool" where
  "re_search ic r [] = match_here ic r []"
| "re_search ic r (x # xs) = (match_here ic r (x # xs) \<or> re_search ic r xs)"

text \<open>A literal word as a pattern.\<close>

definition lits :: "string \<Rightarrow> regex" where
  "lits s = map (\<lambda>c. (Lit c, Once)) s"

section \<open>Safety validator (core/safety.py)\<close>

datatype RiskLevel = LOW | MEDIUM | HIGH | CRITICAL

definition risk_value :: "RiskLevel \<Rightarrow> string" where
  "risk_value l = (case l of LOW \<Rightarrow> ''low'' | MEDIUM \<Rightarrow> ''medium''
                           | HIGH \<Rightarrow> ''high'' | CRITICAL \<Rightarrow> ''critical'')"

record RiskAssessment =
  risk_level :: string
  score :: int
  warnings :: "string list"
  blocked_patterns :: "string list"

record config =
  risk :: RiskLevel
  message :: string

text \<open>
  The validator object. \<open>dangerous_patterns\<close> is a dict, read in insertion order.
  \<open>system_paths\<close> and \<open>destructive_commands\<close> are Python sets: the lists here are their
  elements in the order in which the set happens to be iterated.
\<close>

record SafetyValidator =
  dangerous_patterns :: "(regex \<times> config) list"
  system_paths :: "string list"
  destructive_commands :: "string list"

definition load_dangerous_patterns :: "(regex \<times> config) list" where
  "load_dangerous_patterns =
   [ (lits ''rm'' @ [(Space, Plus), (AnyChar, Star)] @ lits ''-r'' @ [(Lit CHR ''f'', Opt), (Space, Plus)]
        @ lits ''/'',
      \<lparr>risk = CRITICAL, message = ''Recursive deletion from root directory''\<rparr>),
     (lits ''rm'' @ [(Space, Plus), (AnyChar, Star)] @ lits ''-r'' @ [(Lit CHR ''f'', Opt), (Space, Plus)]
        @ lits ''*'',
      \<lparr>risk = HIGH, message = ''Recursive deletion with wildcard''\<rparr>),
     (lits ''dd'' @ [(Space, Plus), (AnyChar, Star)] @ lits ''of=/dev/'',
      \<lparr>risk = CRITICAL, message = ''Writing directly to device''\<rparr>),
     (lits ''chmod'' @ [(Space, Plus)] @ lits ''777'',
      \<lparr>risk = HIGH, message = ''Setting world-writable permissions''\<rparr>),
     (lits ''chown'' @ [(Space, Plus), (AnyChar, Star)] @ lits '':'' @ [(AnyChar, Star), (Space, Plus)]
        @ lits ''/'',
      \<lparr>risk = MEDIUM, message = ''Changing ownership of system files''\<rparr>),
     (lits ''curl'' @ [(Space, Plus), (AnyChar, Star)] @ lits ''|'' @ [(Space, Star)] @ lits ''sh'',
      \<lparr>risk = CRITICAL, message = ''Downloading and executing remote script''\<rparr>),
     (lits ''wget'' @ [(Space, Plus), (AnyChar, Star)] @ lits ''|'' @ [(Space, Star)] @ lits ''sh'',
      \<lparr>risk = CRITICAL, message = ''Downloading and executing remote script''\<rparr>),
     (lits ''sudo'' @ [(Space, Plus), (AnyChar, Star)] @ lits ''rm'',
      \<lparr>risk = HIGH, message = ''Elevated deletion command''\<rparr>),
     (lits ''mkfs'' @ [(Space, Plus)],
      \<lparr>risk = CRITICAL, message = ''Filesystem creation (destructive)''\<rparr>),
     (lits ''kill'' @ [(Space, Plus)] @ lits ''-9'' @ [(Space, Plus)] @ lits ''1'',
      \<lparr>risk = CRITICAL, message = ''Attempting to kill init process''\<rparr>),
     (lits ''killall'' @ [(Space, Plus)],
      \<lparr>risk = MEDIUM, message = ''Killing processes by name''\<rparr>),
     (lits ''>'' @ [(Space, Star)] @ lits ''/etc/'',
      \<lparr>risk = HIGH, message = ''Overwriting system configuration''\<rparr>),
     (lits ''>>'' @ [(Space, Star)] @ lits ''/etc/'',
      \<lparr>risk = MEDIUM, message = ''Modifying system configuration''\<rparr>) ]"

text \<open>
  \<open>__init__\<close>. The two arguments are the iteration orders of the two set literals
  \<open>{'/etc', '/usr', '/boot', '/sys', '/proc', '/dev'}\<close> and
  \<open>{'rm', 'dd', 'mkfs', 'fdisk', 'wipefs'}\<close>, which Python does not fix.
\<close>

definition system_paths_literal :: "string list" where
  "system_paths_literal = [''/etc'', ''/usr'', ''/boot'', ''/sys'', ''/proc'', ''/dev'']"

definition destructive_commands_literal :: "string list" where
  "destructive_commands_literal = [''rm'', ''dd'', ''mkfs'', ''fdisk'', ''wipefs'']"

definition iteration_of :: "string list \<Rightarrow> string list \<Rightarrow> bool" where
  "iteration_of literal order = (distinct order \<and> set order = set literal)"

definition SafetyValidator_init :: "string list \<Rightarrow> string list \<Rightarrow> SafetyValidator" where
  "SafetyValidator_init paths_order commands_order =
     \<lparr>dangerous_patterns = load_dangerous_patterns,
      system_paths = paths_order,
      destructive_commands = commands_order\<rparr>"

definition risk_level_score :: "RiskLevel \<Rightarrow> int" where
  "risk_level_score l = (case l of LOW \<Rightarrow> 1 | MEDIUM \<Rightarrow> 3 | HIGH \<Rightarrow> 7 | CRITICAL \<Rightarrow> 10)"

definition redirect_pattern :: regex where
  "redirect_pattern = lits ''>'' @ [(Space, Star)] @ lits ''/'' @ [(Word, Plus)]"

definition suspicious_chars :: "string list" where
  "suspicious_chars = [''`'', ''$('', ''${'', ''$('', ''||'', ''&&'']"

definition heuristic_checks :: "SafetyValidator \<Rightarrow> string \<Rightarrow> string list" where
  "heuristic_checks self command =
     (let warnings' = [];
          warnings' = (if isin '';'' command \<or> isin ''&&'' command \<or> isin ''||'' command
                      then warnings' @ [''Command contains multiple operations''] else warnings');
          warnings' = (if re_search False redirect_pattern command
                      then warnings' @ [''Redirecting output to root-level directory''] else warnings');
          warnings' = (if isin ''*'' command
                         \<and> list_ex (\<lambda>cmd. isin cmd command) (destructive_commands self)
                      then warnings' @ [''Using wildcards with destructive commands''] else warnings');
          warnings' = (if startswith (strip command) ''sudo''
                      then warnings' @ [''Command requires elevated privileges''] else warnings');
          warnings' = (case find (\<lambda>path. isin path command) (system_paths self) of
                        Some path \<Rightarrow> warnings' @ [''Operating on system directory: '' @ path]
                      | None \<Rightarrow> warnings');
          warnings' = (if list_ex (\<lambda>ch. isin ch command) suspicious_chars
                      then warnings' @ [''Command contains potentially suspicious characters'']
                      else warnings')
      in warnings')"

text \<open>
  The loop of \<open>validate\<close> over the pattern table; the state is
  \<open>(warnings, blocked_patterns, max_risk, score)\<close>, with a prime on the names that
  the record fields have taken.
\<close>

fun scan_patterns ::
  "(regex \<times> config) list \<Rightarrow> string \<Rightarrow> string list \<times> string list \<times> RiskLevel \<times> int
     \<Rightarrow> string list \<times> string list \<times> RiskLevel \<times> int" where
  "scan_patterns [] command st = st"
| "scan_patterns ((pattern, cfg) # rest) command (warnings', blocked, max_risk, score') =
     (if re_search True pattern command
      then scan_patterns rest command
             (warnings' @ [message cfg], blocked @ [pattern_text pattern],
              (if risk_level_score (risk cfg) > risk_level_score max_risk then risk cfg else max_risk),
              score' + risk_level_score (risk cfg) * 10)
      else scan_patterns rest command (warnings', blocked, max_risk, score'))"

definition validate :: "SafetyValidator \<Rightarrow> string \<Rightarrow> RiskAssessment" where
  "validate self command =
     (case scan_patterns (dangerous_patterns self) command ([], [], LOW, 0) of
        (warnings', blocked, max_risk, score') \<Rightarrow>
          (let additional_warnings = heuristic_checks self command;
               warnings' = warnings' @ additional_warnings;
               score' = score' + int (length additional_warnings) * 5;
               final_risk = (if score' \<ge> 80 then CRITICAL
                             else if score' \<ge> 60 then HIGH
                             else if score' \<ge> 30 then MEDIUM
                             else (if max_risk \<noteq> LOW then max_risk else LOW))
           in \<lparr>risk_level = risk_value final_risk,
               score = min score' 100,
               warnings = warnings',
               blocked_patterns = blocked\<rparr>))"

definition is_command_blocked :: "SafetyValidator \<Rightarrow> string \<Rightarrow> bool" where
  "is_command_blocked self command =
     (let assessment = validate self command
      in risk_level assessment = risk_value CRITICAL \<and> score assessment \<ge> 90)"

subsection \<open>The scoring procedure in the words of the specification\<close>

text \<open>
  The definitions of this subsection follow the specification, not the code: the matched
  rules, the weights, the six heuristic checks as truth values, and the score and level
  computed from them. They are compared with \<open>validate\<close> below.
\<close>

definition weight :: "RiskLevel \<Rightarrow> int" where
  "weight s = (case s of LOW \<Rightarrow> 1 | MEDIUM \<Rightarrow> 3 | HIGH \<Rightarrow> 7 | CRITICAL \<Rightarrow> 10)"

definition matched_rules :: "SafetyValidator \<Rightarrow> string \<Rightarrow> (regex \<times> config) list" where
  "matched_rules self command =
     filter (\<lambda>(pattern, cfg). re_search True pattern command) (dangerous_patterns self)"

definition fired_heuristics :: "SafetyValidator \<Rightarrow> string \<Rightarrow> bool list" where
  "fired_heuristics self command =
     [ isin '';'' command \<or> isin ''&&'' command \<or> isin ''||'' command,
       re_search False redirect_pattern command,
       isin ''*'' command \<and> (\<exists>cmd \<in> set (destructive_commands self). isin cmd command),
       startswith (strip command) ''sudo'',
       \<exists>path \<in> set (system_paths self). isin path command,
       \<exists>ch \<in> set suspicious_chars. isin ch command ]"

definition severity_rank :: "RiskLevel \<Rightarrow> nat" where
  "severity_rank s = (case s of LOW \<Rightarrow> 0 | MEDIUM \<Rightarrow> 1 | HIGH \<Rightarrow> 2 | CRITICAL \<Rightarrow> 3)"

fun max_severity :: "RiskLevel list \<Rightarrow> RiskLevel" where
  "max_severity [] = LOW"
| "max_severity (s # ss) =
     (if severity_rank (max_severity ss) < severity_rank s then s else max_severity ss)"

definition spec_score :: "SafetyValidator \<Rightarrow> string \<Rightarrow> int" where
  "spec_score self command =
     min 100 ((\<Sum>(pattern, cfg) \<leftarrow> matched_rules self command. weight (risk cfg) * 10)
              + 5 * int (length (filter id (fired_heuristics self command))))"

definition spec_level :: "SafetyValidator \<Rightarrow> string \<Rightarrow> RiskLevel" where
  "spec_level self command =
     (if spec_score self command \<ge> 80 then CRITICAL
      else if spec_score self command \<ge> 60 then HIGH
      else if spec_score self command \<ge> 30 then MEDIUM
      else max_severity (map (\<lambda>(pattern, cfg). risk cfg) (matched_rules self command)))"

text \<open>One step of the running maximum kept by the loop of \<open>validate\<close>.\<close>

definition pick_risk :: "RiskLevel \<Rightarrow> RiskLevel \<Rightarrow> RiskLevel" where
  "pick_risk max_risk r = (if risk_level_score r > risk_level_score max_risk then r else max_risk)"

section \<open>Intent parser (core/parser.py)\<close>

text \<open>
  The fields of the three dataclasses of the program share names; the records carry a
  prefix each (\<open>pr_\<close>, \<open>hi_\<close>, \<open>sc_\<close>).
\<close>

record ParseResult =
  pr_command :: string
  pr_explanation :: string
  pr_risk_level :: string
  pr_confidence :: real
  pr_alternatives :: "string list"
  pr_warnings :: "string list"

text \<open>
  What the language model and \<open>json.loads\<close> do is given from outside. A decoded object
  is read through \<open>get\<close> with a default, so each field is present or absent.
\<close>

datatype llm_outcome = Response string | LLMRaises

record json_object =
  j_command :: "string option"
  j_explanation :: "string option"
  j_risk_level :: "string option"
  j_confidence :: "real option"
  j_alternatives :: "string list option"
  j_warnings :: "string list option"

datatype loads_outcome = JSONDecodeError | OtherException_loads | Decoded json_object

definition get_default :: "'a option \<Rightarrow> 'a \<Rightarrow> 'a" where
  "get_default field fallback = (case field of Some v \<Rightarrow> v | None \<Rightarrow> fallback)"

text \<open>The loop of \<open>_fallback_parse\<close> over the lines of the response.\<close>

fun fallback_lines :: "string list \<Rightarrow> string \<Rightarrow> ParseResult option" where
  "fallback_lines [] query = None"
| "fallback_lines (line # rest) query =
     (let line = strip line
      in if line \<noteq> [] \<and> \<not> startswith line ''#'' \<and> \<not> startswith line ''//''
         then Some \<lparr>pr_command = line,
                    pr_explanation = ''Generated command for: '' @ query,
                    pr_risk_level = ''medium'',
                    pr_confidence = 0.6,
                    pr_alternatives = [],
                    pr_warnings = [''Fallback parsing used - please verify command'']\<rparr>
         else fallback_lines rest query)"

definition fallback_parse :: "string \<Rightarrow> string \<Rightarrow> ParseResult option" where
  "fallback_parse response query = fallback_lines (split_lines (strip response)) query"

definition parse :: "llm_outcome \<Rightarrow> (string \<Rightarrow> loads_outcome) \<Rightarrow> string \<Rightarrow> ParseResult option" where
  "parse llm loads query =
     (case llm of
        LLMRaises \<Rightarrow> None
      | Response response \<Rightarrow>
          (case loads response of
             Decoded result_data \<Rightarrow>
               Some \<lparr>pr_command = get_default (j_command result_data) [],
                     pr_explanation = get_default (j_explanation result_data) [],
                     pr_risk_level = get_default (j_risk_level result_data) ''medium'',
                     pr_confidence = get_default (j_confidence result_data) 0.8,
                     pr_alternatives = get_default (j_alternatives result_data) [],
                     pr_warnings = get_default (j_warnings result_data) []\<rparr>
           | JSONDecodeError \<Rightarrow> fallback_parse response query
           | OtherException_loads \<Rightarrow> None))"

text \<open>
  The line that the specification describes: not empty and not a comment, once the white
  space around it is removed.
\<close>

definition command_line :: "string \<Rightarrow> bool" where
  "command_line line =
     (strip line \<noteq> [] \<and> \<not> startswith (strip line) ''#'' \<and> \<not> startswith (strip line) ''//'')"

section \<open>Context manager (core/context.py)\<close>

record HistoryItem =
  hi_query :: string
  hi_command :: string
  hi_timestamp :: nat
  hi_executed :: bool

text \<open>
  The history of the context manager. The description of the session (directory, shell,
  user) is not read by any function modelled here and is left out; time stamps are
  readings of the clock, as natural numbers.
\<close>

record ContextManager =
  max_history :: int
  history :: "HistoryItem list"

text \<open>The slice \<open>xs[i:]\<close> of Python; a negative \<open>i\<close> counts from the end.\<close>

definition slice_from :: "int \<Rightarrow> 'a list \<Rightarrow> 'a list" where
  "slice_from i xs =
     (if i < 0 then drop (nat (max 0 (int (length xs) + i))) xs else drop (nat i) xs)"

definition add_interaction ::
  "ContextManager \<Rightarrow> string \<Rightarrow> string \<Rightarrow> nat \<Rightarrow> bool \<Rightarrow> ContextManager" where
  "add_interaction self query command timestamp executed =
     (let item = \<lparr>hi_query = query, hi_command = command,
                  hi_timestamp = timestamp, hi_executed = executed\<rparr>;
          self = self\<lparr>history := history self @ [item]\<rparr>
      in if int (length (history self)) > max_history self
         then self\<lparr>history := slice_from (- max_history self) (history self)\<rparr>
         else self)"

definition add_to_history ::
  "ContextManager \<Rightarrow> string \<Rightarrow> string \<Rightarrow> nat \<Rightarrow> bool \<Rightarrow> ContextManager" where
  "add_to_history self query command timestamp executed =
     add_interaction self query command timestamp executed"

section \<open>Command store (storage/command_store.py)\<close>

record StoredCommand =
  sc_id :: int
  sc_command :: string
  sc_query :: string
  sc_explanation :: string
  sc_risk_level :: string
  sc_timestamp :: nat
  sc_executed :: bool
  sc_success :: bool
  sc_output :: string

text \<open>
  The table \<open>commands\<close>: its rows, and the largest id given out so far, which
  \<open>AUTOINCREMENT\<close> keeps so that an id is never used twice.
\<close>

record CommandStore =
  rows :: "StoredCommand list"
  sequence :: int

text \<open>
  The errors of the store. \<open>OverflowError\<close> is raised by \<open>sqlite3\<close> when an integer bound
  to a statement does not fit the signed 64 bits of an SQLite \<open>INTEGER\<close>. \<open>NotFound\<close> is
  the error of the specification; no statement of the store raises it.
\<close>

datatype store_error = NotFound | OverflowError

definition int64 :: "int \<Rightarrow> bool" where
  "int64 i = (- (2 ^ 63) \<le> i \<and> i \<le> 2 ^ 63 - 1)"

definition initialize_database :: CommandStore where
  "initialize_database = \<lparr>rows = [], sequence = 0\<rparr>"

definition store_command ::
  "CommandStore \<Rightarrow> string \<Rightarrow> string \<Rightarrow> string \<Rightarrow> string \<Rightarrow> bool \<Rightarrow> bool \<Rightarrow> string \<Rightarrow> nat
     \<Rightarrow> int \<times> CommandStore" where
  "store_command self command query explanation risk_level' executed success output timestamp =
     (let lastrowid = sequence self + 1
      in (lastrowid,
          \<lparr>rows = rows self @
             [\<lparr>sc_id = lastrowid, sc_command = command, sc_query = query,
               sc_explanation = explanation, sc_risk_level = risk_level',
               sc_timestamp = timestamp, sc_executed = executed, sc_success = success,
               sc_output = output\<rparr>],
           sequence = lastrowid\<rparr>))"

text \<open>
  \<open>UPDATE commands SET executed = TRUE, success = ?, output = ? WHERE id = ?\<close>.
  Binding an id outside the 64-bit range raises before the statement runs; the result
  \<open>Inl\<close> leaves the store of the caller as it was.
\<close>

definition update_command_result ::
  "CommandStore \<Rightarrow> int \<Rightarrow> bool \<Rightarrow> string \<Rightarrow> store_error + CommandStore" where
  "update_command_result self command_id success output =
     (if \<not> int64 command_id then Inl OverflowError
      else Inr (self\<lparr>rows :=
                  map (\<lambda>row. if sc_id row = command_id
                              then row\<lparr>sc_executed := True, sc_success := success,
                                       sc_output := output\<rparr>
                              else row)
                      (rows self)\<rparr>))"

text \<open>\<open>s or d\<close> of Python on a string: \<open>d\<close> when \<open>s\<close> is empty.\<close>

definition or_else :: "string \<Rightarrow> string \<Rightarrow> string" where
  "or_else s d = (if s = [] then d else s)"

text \<open>
  \<open>SELECT * FROM commands WHERE id = ?\<close> and the first row of the answer, read into a
  \<open>StoredCommand\<close> with \<open>or\<close> on three of its columns. A column that is \<open>NULL\<close> in the table
  is the empty string here; \<open>or\<close> treats the two alike.
\<close>

definition get_command :: "CommandStore \<Rightarrow> int \<Rightarrow> store_error + StoredCommand option" where
  "get_command self command_id =
     (if \<not> int64 command_id then Inl OverflowError
      else Inr (case find (\<lambda>row. sc_id row = command_id) (rows self) of
                  None \<Rightarrow> None
                | Some row \<Rightarrow>
                    Some (row\<lparr>sc_explanation := or_else (sc_explanation row) [],
                              sc_risk_level := or_else (sc_risk_level row) ''low'',
                              sc_output := or_else (sc_output row) []\<rparr>)))"

text \<open>
  What the primary key and \<open>AUTOINCREMENT\<close> guarantee of every table: the ids are
  distinct, they are 64-bit integers, and none is above the largest id given out.
\<close>

definition table_ok :: "CommandStore \<Rightarrow> bool" where
  "table_ok self = (distinct (map sc_id (rows self))
                    \<and> list_all (\<lambda>row. int64 (sc_id row) \<and> sc_id row \<le> sequence self) (rows self))"

section \<open>The request pipeline (main.py)\<close>

text \<open>
  The surroundings of one call of \<open>ask\<close>: the answer of the language model, the JSON
  decoder, the answer to each confirmation prompt (\<open>None\<close> when \<open>Confirm.ask\<close> raises,
  as on a closed input), what running a command in the shell does, and the clock.
  Terminal output is not modelled.
\<close>

datatype run_outcome = Completed int string string | TimeoutExpired | OtherException

record env =
  llm :: llm_outcome
  loads :: "string \<Rightarrow> loads_outcome"
  confirm :: "string \<Rightarrow> bool option"
  shell :: "string \<Rightarrow> run_outcome"
  now :: nat
  safety_validator :: SafetyValidator

text \<open>
  The state that \<open>ask\<close> changes: the two global objects, the commands handed to
  \<open>subprocess.run\<close> and the prompts shown by \<open>Confirm.ask\<close>, both in order.
\<close>

record world =
  context_manager :: ContextManager
  command_store :: CommandStore
  shell_log :: "string list"
  asked :: "string list"

datatype status = Returned | Exit1

definition execute_prompt :: string where
  "execute_prompt = ''Execute this command?''"

definition critical_prompt :: string where
  "critical_prompt =
     ''[bold red]This is a CRITICAL risk command. Are you absolutely sure?[/bold red]''"

definition Confirm_ask :: "env \<Rightarrow> string \<Rightarrow> world \<Rightarrow> bool option \<times> world" where
  "Confirm_ask e prompt w = (confirm e prompt, w\<lparr>asked := asked w @ [prompt]\<rparr>)"

text \<open>\<open>_execute_command\<close>: one call of \<open>subprocess.run\<close> with a timeout of 30 seconds.\<close>

definition execute_command :: "env \<Rightarrow> string \<Rightarrow> world \<Rightarrow> bool \<times> world" where
  "execute_command e command w =
     (let w = w\<lparr>shell_log := shell_log w @ [command]\<rparr>
      in case shell e command of
           Completed returncode out err \<Rightarrow> (returncode = 0, w)
         | TimeoutExpired \<Rightarrow> (False, w)
         | OtherException \<Rightarrow> (False, w))"

text \<open>The body of \<open>if should_execute\<close> after the confirmation of a critical command.\<close>

definition run_approved ::
  "env \<Rightarrow> string \<Rightarrow> ParseResult \<Rightarrow> RiskAssessment \<Rightarrow> world \<Rightarrow> world" where
  "run_approved e query result risk_assessment w =
     (case execute_command e (pr_command result) w of
        (success, w) \<Rightarrow>
          if success
          then (case store_command (command_store w) (pr_command result) query
                       (pr_explanation result) (risk_level risk_assessment) False False [] (now e) of
                  (lastrowid, store) \<Rightarrow>
                    w\<lparr>command_store := store,
                      context_manager :=
                        add_interaction (context_manager w) query (pr_command result) (now e) False\<rparr>)
          else w)"

text \<open>The last statement of \<open>ask\<close>, under the comment
  \<^verbatim>\<open># Store in history regardless of execution\<close>: the history entry.\<close>

definition store_in_history :: "env \<Rightarrow> string \<Rightarrow> ParseResult \<Rightarrow> bool \<Rightarrow> world \<Rightarrow> world" where
  "store_in_history e query result should_execute w =
     w\<lparr>context_manager :=
         add_to_history (context_manager w) query (pr_command result) (now e) should_execute\<rparr>"

text \<open>
  \<open>ask query execute dry_run\<close>. The flags \<open>explain\<close> and \<open>context\<close> of the program change
  only what is printed and what the language model is sent, so they are not arguments here.
  \<open>Returned\<close> is a normal return, also the early \<open>return\<close> after a declined confirmation
  of a critical command; \<open>Exit1\<close> is \<open>typer.Exit(1)\<close>, raised when no command was generated
  and by the handler of every exception.
\<close>

definition ask :: "env \<Rightarrow> string \<Rightarrow> bool \<Rightarrow> bool \<Rightarrow> world \<Rightarrow> status \<times> world" where
  "ask e query execute dry_run w =
     (case parse (llm e) (loads e) query of
        None \<Rightarrow> (Exit1, w)
      | Some result \<Rightarrow>
          (let risk_assessment = validate (safety_validator e) (pr_command result)
           in if dry_run then (Returned, store_in_history e query result False w)
              else (case (if execute then (Some True, w) else Confirm_ask e execute_prompt w) of
                      (None, w) \<Rightarrow> (Exit1, w)
                    | (Some False, w) \<Rightarrow> (Returned, store_in_history e query result False w)
                    | (Some True, w) \<Rightarrow>
                        if risk_level risk_assessment = ''critical''
                        then (case Confirm_ask e critical_prompt w of
                                (None, w) \<Rightarrow> (Exit1, w)
                              | (Some False, w) \<Rightarrow> (Returned, w)
                              | (Some True, w) \<Rightarrow>
                                  (Returned, store_in_history e query result True
                                               (run_approved e query result risk_assessment w)))
                        else (Returned, store_in_history e query result True
                                          (run_approved e query result risk_assessment w)))))"

text \<open>Concrete surroundings used in the examples below.\<close>

definition validator0 :: SafetyValidator where
  "validator0 = SafetyValidator_init system_paths_literal destructive_commands_literal"

definition world0 :: world where
  "world0 = \<lparr>context_manager = \<lparr>max_history = 50, history = []\<rparr>,
             command_store = initialize_database,
             shell_log = [], asked = []\<rparr>"

text \<open>The model answers with plain text, which is not JSON, so the fallback gives the command.\<close>

definition plain_env :: "string \<Rightarrow> (string \<Rightarrow> bool option) \<Rightarrow> run_outcome \<Rightarrow> env" where
  "plain_env text answers outcome =
     \<lparr>llm = Response text, loads = (\<lambda>_. JSONDecodeError), confirm = answers,
      shell = (\<lambda>_. outcome), now = 0, safety_validator = validator0\<rparr>"

text \<open>
  A validator whose table holds three rules of medium severity, and a command that
  matches the three and fires no heuristic check.
\<close>

definition three_medium :: SafetyValidator where
  "three_medium =
     \<lparr>dangerous_patterns =
        [(lits ''chgrp'', \<lparr>risk = MEDIUM, message = ''Changing group''\<rparr>),
         (lits ''chown'', \<lparr>risk = MEDIUM, message = ''Changing owner''\<rparr>),
         (lits ''killall'', \<lparr>risk = MEDIUM, message = ''Killing processes by name''\<rparr>)],
      system_paths = system_paths_literal,
      destructive_commands = destructive_commands_literal\<rparr>"

definition three_medium_command :: string where
  "three_medium_command = ''chgrp staff a, chown me b, killall c''"

text \<open>A table with two rows, as two calls of \<open>store_command\<close> leave it.\<close>

definition two_rows :: CommandStore where
  "two_rows =
     snd (store_command
            (snd (store_command initialize_database ''ls -la'' ''list files'' ''Lists files''
                    ''low'' False False [] 10))
            ''df -h'' ''disk space'' ''Shows disk usage'' ''low'' False False [] 20)"

text \<open>A response in plain text: a comment, a command between blanks, another command.\<close>

definition plain_response :: string where
  "plain_response = ''# list the files'' @ [CHR 0x0A] @ ''  ls -la  '' @ [CHR 0x0A] @ ''pwd''"



definition rm_declined_env :: env where
  "rm_declined_env = plain_env ''rm -rf /'' (\<lambda>prompt. Some (prompt = execute_prompt)) (Completed 0 [] [])"

definition sleep_env :: env where
  "sleep_env = plain_env ''sleep 60'' (\<lambda>_. Some True) TimeoutExpired"

definition sleep_result :: ParseResult where
  "sleep_result = \<lparr>pr_command = ''sleep 60'',
                   pr_explanation = ''Generated command for: wait a minute'',
                   pr_risk_level = ''medium'',
                   pr_confidence = 0.6,
                   pr_alternatives = [],
                   pr_warnings = [''Fallback parsing used - please verify command'']\<rparr>"

definition ls_env :: env where
  "ls_env = plain_env ''ls -la'' (\<lambda>_. Some True) (Completed 0 ''total 0'' [])"

text \<open>The score held in the state of the loop of \<open>validate\<close>.\<close>

definition running_score :: "string list \<times> string list \<times> RiskLevel \<times> int \<Rightarrow> int" where
  "running_score st = snd (snd (snd st))"

text \<open>
  Another order in which the set of system paths may be iterated, a validator without
  rules, paths and commands, and two commands for the examples.
\<close>

definition paths_usr_first :: "string list" where
  "paths_usr_first = [''/usr'', ''/etc'', ''/boot'', ''/sys'', ''/proc'', ''/dev'']"

definition empty_validator :: SafetyValidator where
  "empty_validator = \<lparr>dangerous_patterns = [], system_paths = [], destructive_commands = []\<rparr>"

definition two_paths_command :: string where
  "two_paths_command = ''cat /etc/hosts /usr/share/dict/words''"

definition sudo_rm_command :: string where
  "sudo_rm_command = ''sudo rm -rf /etc/*''"

text \<open>A response that is one comment, and the test that a string is plain ASCII.\<close>

definition comment_env :: env where
  "comment_env = plain_env ''# no command here'' (\<lambda>_. Some True) (Completed 0 [] [])"

definition ascii :: "string \<Rightarrow> bool" where
  "ascii s = list_all (\<lambda>c. code c < 128) s"



section \<open>Properties\<close>

subsection \<open>The loop of validate\<close>

lemma score_rank:
  "(risk_level_score a < risk_level_score b) = (severity_rank a < severity_rank b)"
  by (cases a; cases b) (simp_all add: risk_level_score_def severity_rank_def)

lemma rank_inj: "severity_rank a = severity_rank b \<Longrightarrow> a = b"
  by (cases a; cases b) (simp_all add: severity_rank_def)

lemma rank_LOW: "severity_rank LOW = 0"
  by (simp add: severity_rank_def)

lemma weight_score: "weight r = risk_level_score r"
  by (simp add: weight_def risk_level_score_def)

lemma risk_level_score_pos: "0 < risk_level_score r"
  by (cases r) (simp_all add: risk_level_score_def)

lemma scan_patterns_eq:
  "scan_patterns ps c (w, b, m, s) =
     (w @ map (\<lambda>(p, cfg). message cfg) (filter (\<lambda>(p, cfg). re_search True p c) ps),
      b @ map (\<lambda>(p, cfg). pattern_text p) (filter (\<lambda>(p, cfg). re_search True p c) ps),
      foldl pick_risk m (map (\<lambda>(p, cfg). risk cfg) (filter (\<lambda>(p, cfg). re_search True p c) ps)),
      s + (\<Sum>(p, cfg) \<leftarrow> filter (\<lambda>(p, cfg). re_search True p c) ps. risk_level_score (risk cfg) * 10))"
proof (induction ps arbitrary: w b m s)
  case Nil
  show ?case by simp
next
  case (Cons a ps)
  obtain p cfg where a: "a = (p, cfg)" by (cases a)
  show ?case
    by (simp add: a Cons.IH pick_risk_def)
qed

lemma foldl_pick_rank:
  "severity_rank (foldl pick_risk m rs) = max (severity_rank m) (severity_rank (max_severity rs))"
proof (induction rs arbitrary: m)
  case Nil
  show ?case by (simp add: rank_LOW)
next
  case (Cons r rs)
  have "severity_rank (pick_risk m r) = max (severity_rank m) (severity_rank r)"
    by (simp add: pick_risk_def score_rank max_def)
  then show ?case
    by (simp add: Cons.IH max_def)
qed

lemma foldl_pick_LOW: "foldl pick_risk LOW rs = max_severity rs"
  by (rule rank_inj) (simp add: foldl_pick_rank rank_LOW)

lemma length_snoc_if: "length (if b then xs @ [a] else xs) = length xs + (if b then 1 else 0)"
  by simp

lemma count6:
  "length (filter id [b1, b2, b3, b4, b5, b6]) =
     (if b1 then 1 else 0) + (if b2 then 1 else 0) + (if b3 then 1 else 0)
     + (if b4 then 1 else 0) + (if b5 then 1 else 0) + (if b6 then 1 else 0)"
  by simp

lemma heuristic_checks_length:
  "length (heuristic_checks self c) = length (filter id (fired_heuristics self c))"
proof -
  have f: "length (case find (\<lambda>path. isin path c) (system_paths self) of
                     Some path \<Rightarrow> ws @ [''Operating on system directory: '' @ path]
                   | None \<Rightarrow> ws)
           = length ws + (if \<exists>path \<in> set (system_paths self). isin path c then 1 else 0)" for ws
  proof (cases "find (\<lambda>path. isin path c) (system_paths self)")
    case None
    then have "\<not> (\<exists>path \<in> set (system_paths self). isin path c)"
      by (auto simp: find_None_iff)
    with None show ?thesis by simp
  next
    case (Some p)
    then have "p \<in> set (system_paths self) \<and> isin p c"
      by (auto simp: find_Some_iff)
    then have "\<exists>path \<in> set (system_paths self). isin path c" by blast
    with Some show ?thesis by simp
  qed
  have l: "length (heuristic_checks self c) =
      (if isin '';'' c \<or> isin ''&&'' c \<or> isin ''||'' c then 1 else 0)
    + (if re_search False redirect_pattern c then 1 else 0)
    + (if isin ''*'' c \<and> (\<exists>cmd \<in> set (destructive_commands self). isin cmd c) then 1 else 0)
    + (if startswith (strip c) ''sudo'' then 1 else 0)
    + (if \<exists>path \<in> set (system_paths self). isin path c then 1 else 0)
    + (if \<exists>ch \<in> set suspicious_chars. isin ch c then 1 else 0)"
    unfolding heuristic_checks_def Let_def
    by (simp only: length_snoc_if f list_ex_iff list.size add_0)
  show ?thesis
    unfolding l fired_heuristics_def by (rule count6 [symmetric])
qed

lemma validate_score: "score (validate self c) = spec_score self c"
  by (simp add: validate_def scan_patterns_eq Let_def spec_score_def matched_rules_def
      heuristic_checks_length weight_score min.commute mult.commute)

lemma validate_level: "risk_level (validate self c) = risk_value (spec_level self c)"
  by (simp add: validate_def scan_patterns_eq Let_def spec_level_def spec_score_def
      matched_rules_def heuristic_checks_length weight_score foldl_pick_LOW mult.commute)

lemma validate_blocked_patterns:
  "blocked_patterns (validate self c) = map (\<lambda>(p, cfg). pattern_text p) (matched_rules self c)"
  by (simp add: validate_def scan_patterns_eq Let_def matched_rules_def)

lemma validate_warnings:
  "warnings (validate self c) =
     map (\<lambda>(p, cfg). message cfg) (matched_rules self c) @ heuristic_checks self c"
  by (simp add: validate_def scan_patterns_eq Let_def matched_rules_def)

lemma sum_weights_by_risk:
  "(\<Sum>(p, cfg) \<leftarrow> ms. weight (risk cfg) * 10) = (\<Sum>r \<leftarrow> map (\<lambda>(p, cfg). risk cfg) ms. weight r * 10)"
  by (induction ms) auto

text \<open>The table of the program, written back as pattern text, is the table of the source.\<close>

lemma load_dangerous_patterns_text:
  "map (\<lambda>(p, cfg). pattern_text p) load_dangerous_patterns =
     [ ''rm'' @ [backslash] @ ''s+.*-rf?'' @ [backslash] @ ''s+/'',
       ''rm'' @ [backslash] @ ''s+.*-rf?'' @ [backslash] @ ''s+'' @ [backslash] @ ''*'',
       ''dd'' @ [backslash] @ ''s+.*of=/dev/'',
       ''chmod'' @ [backslash] @ ''s+777'',
       ''chown'' @ [backslash] @ ''s+.*:.*'' @ [backslash] @ ''s+/'',
       ''curl'' @ [backslash] @ ''s+.*'' @ [backslash] @ ''|'' @ [backslash] @ ''s*sh'',
       ''wget'' @ [backslash] @ ''s+.*'' @ [backslash] @ ''|'' @ [backslash] @ ''s*sh'',
       ''sudo'' @ [backslash] @ ''s+.*rm'',
       ''mkfs'' @ [backslash] @ ''s+'',
       ''kill'' @ [backslash] @ ''s+-9'' @ [backslash] @ ''s+1'',
       ''killall'' @ [backslash] @ ''s+'',
       ''>'' @ [backslash] @ ''s*/etc/'',
       ''>>'' @ [backslash] @ ''s*/etc/'' ]"
  by code_simp

lemma redirect_pattern_text:
  "pattern_text redirect_pattern = ''>'' @ [backslash] @ ''s*/'' @ [backslash] @ ''w+''"
  by code_simp

subsection \<open>Scores and levels\<close>

lemma three_medium_matched:
  "map (\<lambda>(pattern, cfg). risk cfg) (matched_rules three_medium three_medium_command) = [MEDIUM, MEDIUM, MEDIUM]"
  by code_simp
lemma three_medium_quiet:
  "filter id (fired_heuristics three_medium three_medium_command) = []"
  by code_simp

text \<open>
  C1. For every validator and every command, the score that \<open>validate\<close> returns is the
  sum of ten times the weight of every matching rule (weights 1, 3, 7, 10; every rule of the
  table is tried), plus five for each heuristic check that fired, cut off at 100; the level
  is critical from 80, high from 60, medium from 30, and below 30 the largest severity among
  the matched rules, low when none matched. Three matches of medium severity and nothing
  else give the score 90 and the level critical.
\<close>

theorem validate_score_and_level:
  "score (validate self command) = spec_score self command
   \<and> risk_level (validate self command) = risk_value (spec_level self command)
   \<and> (map (\<lambda>(pattern, cfg). risk cfg) (matched_rules self command) = [MEDIUM, MEDIUM, MEDIUM]
        \<and> filter id (fired_heuristics self command) = []
      \<longrightarrow> score (validate self command) = 90
          \<and> risk_level (validate self command) = risk_value CRITICAL)"
proof (intro conjI impI)
  show "score (validate self command) = spec_score self command"
    by (rule validate_score)
  show "risk_level (validate self command) = risk_value (spec_level self command)"
    by (rule validate_level)
next
  assume h: "map (\<lambda>(pattern, cfg). risk cfg) (matched_rules self command) = [MEDIUM, MEDIUM, MEDIUM]
             \<and> filter id (fired_heuristics self command) = []"
  then have s: "spec_score self command = 90"
    unfolding spec_score_def sum_weights_by_risk by (simp add: weight_def)
  show "score (validate self command) = 90"
    by (simp add: validate_score s)
  show "risk_level (validate self command) = risk_value CRITICAL"
    by (simp add: validate_level spec_level_def s)
qed

theorem validate_score_and_level_witness:
  "map (\<lambda>(pattern, cfg). risk cfg) (matched_rules three_medium three_medium_command)
     = [MEDIUM, MEDIUM, MEDIUM]
   \<and> filter id (fired_heuristics three_medium three_medium_command) = []
   \<and> score (validate three_medium three_medium_command) = 90
   \<and> risk_level (validate three_medium three_medium_command) = ''critical''"
  using validate_score_and_level [of three_medium three_medium_command, THEN conjunct2, THEN conjunct2]
    three_medium_matched three_medium_quiet
  by (simp add: risk_value_def)

subsection \<open>Blocked commands\<close>

lemma validator0_moderate:
  "risk_level (validate validator0 ''chmod 777 a && b'') = ''critical''
   \<and> score (validate validator0 ''chmod 777 a && b'') = 80"
  by code_simp

text \<open>
  C2. \<open>is_command_blocked\<close> holds exactly when \<open>validate\<close> gives the level critical and a
  score of at least 90; a command assessed critical with a score from 80 to 89 is not blocked.
\<close>

theorem is_command_blocked_iff:
  "(is_command_blocked self command \<longleftrightarrow>
      risk_level (validate self command) = risk_value CRITICAL \<and> score (validate self command) \<ge> 90)
   \<and> (risk_level (validate self command) = risk_value CRITICAL
        \<and> 80 \<le> score (validate self command) \<and> score (validate self command) \<le> 89
      \<longrightarrow> \<not> is_command_blocked self command)"
  by (simp add: is_command_blocked_def Let_def)

theorem is_command_blocked_iff_witness:
  "risk_level (validate validator0 ''chmod 777 a && b'') = risk_value CRITICAL
   \<and> 80 \<le> score (validate validator0 ''chmod 777 a && b'')
   \<and> score (validate validator0 ''chmod 777 a && b'') \<le> 89
   \<and> \<not> is_command_blocked validator0 ''chmod 777 a && b''"
  using is_command_blocked_iff [of validator0 "''chmod 777 a && b''", THEN conjunct2] validator0_moderate
  by (simp add: risk_value_def)

subsection \<open>The reference inputs\<close>

lemma heuristic_checks_cong:
  assumes "find (\<lambda>path. isin path c) (system_paths a) = find (\<lambda>path. isin path c) (system_paths b)"
    and "list_ex (\<lambda>cmd. isin cmd c) (destructive_commands a)
         = list_ex (\<lambda>cmd. isin cmd c) (destructive_commands b)"
  shows "heuristic_checks a c = heuristic_checks b c"
  using assms by (simp add: heuristic_checks_def)

lemma validate_cong:
  assumes "dangerous_patterns a = dangerous_patterns b"
    and "heuristic_checks a c = heuristic_checks b c"
  shows "validate a c = validate b c"
  using assms by (simp add: validate_def)

lemma validate_init_order:
  assumes sp: "iteration_of system_paths_literal paths_order"
    and dc: "iteration_of destructive_commands_literal commands_order"
    and none: "find (\<lambda>path. isin path c) system_paths_literal = None"
  shows "validate (SafetyValidator_init paths_order commands_order) c = validate validator0 c"
proof -
  have "find (\<lambda>path. isin path c) paths_order = None"
    using sp none by (auto simp: find_None_iff iteration_of_def)
  moreover have "list_ex (\<lambda>cmd. isin cmd c) commands_order
                 = list_ex (\<lambda>cmd. isin cmd c) destructive_commands_literal"
    using dc by (simp add: list_ex_iff iteration_of_def)
  ultimately have "heuristic_checks (SafetyValidator_init paths_order commands_order) c
                   = heuristic_checks validator0 c"
    by (intro heuristic_checks_cong) (simp_all add: SafetyValidator_init_def validator0_def none)
  then show ?thesis
    by (intro validate_cong) (simp_all add: SafetyValidator_init_def validator0_def)
qed

lemma rm_rf_no_path: "find (\<lambda>path. isin path ''rm -rf /'') system_paths_literal = None"
  by code_simp

lemma ls_la_no_path: "find (\<lambda>path. isin path ''ls -la'') system_paths_literal = None"
  by code_simp

lemma validator0_rm_rf:
  "validate validator0 ''rm -rf /'' =
     \<lparr>risk_level = ''critical'', score = 100,
      warnings = [''Recursive deletion from root directory''],
      blocked_patterns = [''rm'' @ [backslash] @ ''s+.*-rf?'' @ [backslash] @ ''s+/'']\<rparr>"
  by code_simp

lemma validator0_ls_la:
  "validate validator0 ''ls -la'' =
     \<lparr>risk_level = ''low'', score = 0, warnings = [], blocked_patterns = []\<rparr>"
  by code_simp

lemma literal_orders:
  "iteration_of system_paths_literal system_paths_literal
   \<and> iteration_of destructive_commands_literal destructive_commands_literal"
  by (simp add: iteration_of_def system_paths_literal_def destructive_commands_literal_def)

text \<open>
  C8. For every validator that \<open>__init__\<close> can build, \<open>rm -rf /\<close> is assessed critical,
  with the warning of the recursive deletion from the root directory and a score of at least
  80, and \<open>ls -la\<close> is assessed low with score 0 and no warning.
\<close>

theorem reference_inputs:
  assumes "iteration_of system_paths_literal paths_order"
    and "iteration_of destructive_commands_literal commands_order"
  shows "risk_level (validate (SafetyValidator_init paths_order commands_order) ''rm -rf /'') = ''critical''
       \<and> ''Recursive deletion from root directory''
            \<in> set (warnings (validate (SafetyValidator_init paths_order commands_order) ''rm -rf /''))
       \<and> score (validate (SafetyValidator_init paths_order commands_order) ''rm -rf /'') \<ge> 80
       \<and> risk_level (validate (SafetyValidator_init paths_order commands_order) ''ls -la'') = ''low''
       \<and> score (validate (SafetyValidator_init paths_order commands_order) ''ls -la'') = 0
       \<and> warnings (validate (SafetyValidator_init paths_order commands_order) ''ls -la'') = []"
  by (simp add: validate_init_order [OF assms rm_rf_no_path] validate_init_order [OF assms ls_la_no_path]
      validator0_rm_rf validator0_ls_la)

theorem reference_inputs_witness:
  "iteration_of system_paths_literal system_paths_literal
   \<and> iteration_of destructive_commands_literal destructive_commands_literal
   \<and> risk_level (validate validator0 ''rm -rf /'') = ''critical''
   \<and> ''Recursive deletion from root directory'' \<in> set (warnings (validate validator0 ''rm -rf /''))
   \<and> score (validate validator0 ''rm -rf /'') \<ge> 80
   \<and> risk_level (validate validator0 ''ls -la'') = ''low''
   \<and> score (validate validator0 ''ls -la'') = 0
   \<and> warnings (validate validator0 ''ls -la'') = []"
  using reference_inputs [of system_paths_literal destructive_commands_literal] literal_orders
  by (simp add: validator0_def)

subsection \<open>The command store\<close>

lemma table_ok_initialize_database: "table_ok initialize_database"
  by (simp add: table_ok_def initialize_database_def)

text \<open>An insert keeps the guarantees as long as the next id is a 64-bit integer.\<close>

lemma table_ok_store_command:
  assumes "table_ok self" and "int64 (sequence self + 1)"
  shows "table_ok (snd (store_command self command query explanation level executed success output timestamp))"
proof -
  have "sc_id row \<noteq> sequence self + 1" if "row \<in> set (rows self)" for row
    using assms(1) that by (fastforce simp: table_ok_def list_all_iff)
  moreover have "sc_id row \<le> sequence self + 1" if "row \<in> set (rows self)" for row
    using assms(1) that by (fastforce simp: table_ok_def list_all_iff)
  moreover have "int64 (sc_id row)" if "row \<in> set (rows self)" for row
    using assms(1) that by (simp add: table_ok_def list_all_iff)
  ultimately show ?thesis
    using assms by (auto simp: table_ok_def store_command_def Let_def list_all_iff)
qed

lemma rows_update_command_result:
  "update_command_result self command_id success output = Inr self' \<Longrightarrow>
   rows self' = map (\<lambda>row. if sc_id row = command_id
                             then row\<lparr>sc_executed := True, sc_success := success, sc_output := output\<rparr>
                             else row) (rows self)
   \<and> sequence self' = sequence self"
  by (auto simp: update_command_result_def split: if_splits)

lemma update_keeps_ids:
  "map sc_id (map (\<lambda>row. if sc_id row = command_id
                           then row\<lparr>sc_executed := True, sc_success := success, sc_output := output\<rparr>
                           else row) rs) = map sc_id rs"
  by (induction rs) auto

lemma table_ok_update_command_result:
  assumes "table_ok self" and "update_command_result self command_id success output = Inr self'"
  shows "table_ok self'"
proof -
  note r = rows_update_command_result [OF assms(2)]
  have "map sc_id (rows self') = map sc_id (rows self)"
    using r by (simp only: update_keeps_ids)
  moreover have "list_all (\<lambda>row. int64 (sc_id row) \<and> sc_id row \<le> sequence self') (rows self')"
    using assms(1) r by (auto simp: table_ok_def list_all_iff)
  ultimately show ?thesis
    using assms(1) by (simp add: table_ok_def)
qed

lemma present_id_int64:
  assumes "table_ok self" and "command_id \<in> sc_id ` set (rows self)"
  shows "int64 command_id"
  using assms by (auto simp: table_ok_def list_all_iff)

lemma table_ok_two_rows: "table_ok two_rows"
  unfolding two_rows_def
  by (intro table_ok_store_command table_ok_initialize_database)
     (simp_all add: store_command_def initialize_database_def Let_def int64_def)

lemma two_rows_eval:
  "two_rows =
     \<lparr>rows = [\<lparr>sc_id = 1, sc_command = ''ls -la'', sc_query = ''list files'',
                sc_explanation = ''Lists files'', sc_risk_level = ''low'', sc_timestamp = 10,
                sc_executed = False, sc_success = False, sc_output = []\<rparr>,
               \<lparr>sc_id = 2, sc_command = ''df -h'', sc_query = ''disk space'',
                sc_explanation = ''Shows disk usage'', sc_risk_level = ''low'', sc_timestamp = 20,
                sc_executed = False, sc_success = False, sc_output = []\<rparr>],
      sequence = 2\<rparr>"
  by (simp add: two_rows_def store_command_def initialize_database_def Let_def)

text \<open>With distinct ids, the update of every row with the id is the update of one position.\<close>

lemma map_update_one:
  assumes "distinct (map key rs)" and "i < length rs" and "key (rs ! i) = k"
  shows "map (\<lambda>row. if key row = k then f row else row) rs = rs[i := f (rs ! i)]"
proof (rule nth_equalityI)
  show "length (map (\<lambda>row. if key row = k then f row else row) rs) = length (rs[i := f (rs ! i)])"
    by simp
next
  fix j
  assume "j < length (map (\<lambda>row. if key row = k then f row else row) rs)"
  then have j: "j < length rs" by simp
  show "map (\<lambda>row. if key row = k then f row else row) rs ! j = rs[i := f (rs ! i)] ! j"
  proof (cases "j = i")
    case True
    then show ?thesis using assms by simp
  next
    case False
    have "key (rs ! j) \<noteq> key (rs ! i)"
      using assms(1,2) j False by (simp add: nth_eq_iff_index_eq [of "map key rs" j i, symmetric] del: distinct_map)
    then show ?thesis using assms(3) j False by simp
  qed
qed

lemma map_update_none:
  assumes "k \<notin> key ` set rs"
  shows "map (\<lambda>row. if key row = k then f row else row) rs = rs"
  using assms by (induction rs) auto

lemma unique_index:
  assumes "distinct (map key rs)" and "k \<in> key ` set rs"
  shows "\<exists>!i. i < length rs \<and> key (rs ! i) = k"
proof -
  obtain i where i: "i < length rs" "key (rs ! i) = k"
    using assms(2) by (auto simp: in_set_conv_nth)
  show ?thesis
  proof (rule ex1I [of _ i])
    show "i < length rs \<and> key (rs ! i) = k" using i by simp
  next
    fix j
    assume j: "j < length rs \<and> key (rs ! j) = k"
    with nth_eq_iff_index_eq [OF assms(1), of j i] i show "j = i"
      by simp
  qed
qed

lemma int64_examples: "int64 7 \<and> int64 2 \<and> \<not> int64 (2 ^ 63)"
  by (simp add: int64_def)

text \<open>
  C5, as the code has it. \<open>update_command_result\<close> never fails with \<open>NotFound\<close>. With an
  id that no row has and that is a 64-bit integer, it returns normally and leaves the table
  as it is; with an id that is not a 64-bit integer, which no row can have, it fails with
  \<open>OverflowError\<close>, and the table is as it was. With an id of a row of a table with distinct
  ids, it changes one position of the table, the row with that id, and there the three
  outcome fields.
\<close>

theorem update_command_result_rows:
  "update_command_result self command_id success output \<noteq> Inl NotFound
   \<and> (command_id \<notin> sc_id ` set (rows self) \<and> int64 command_id
      \<longrightarrow> update_command_result self command_id success output = Inr self)
   \<and> (\<not> int64 command_id
      \<longrightarrow> update_command_result self command_id success output = Inl OverflowError)
   \<and> (table_ok self \<and> command_id \<in> sc_id ` set (rows self)
      \<longrightarrow> (\<exists>i < length (rows self). sc_id (rows self ! i) = command_id
             \<and> update_command_result self command_id success output =
                 Inr (self\<lparr>rows := (rows self)
                        [i := (rows self ! i)\<lparr>sc_executed := True, sc_success := success,
                                               sc_output := output\<rparr>]\<rparr>)))"
proof (intro conjI impI)
  show "update_command_result self command_id success output \<noteq> Inl NotFound"
    by (simp add: update_command_result_def)
next
  assume "command_id \<notin> sc_id ` set (rows self) \<and> int64 command_id"
  then show "update_command_result self command_id success output = Inr self"
    by (simp add: update_command_result_def map_update_none)
next
  assume "\<not> int64 command_id"
  then show "update_command_result self command_id success output = Inl OverflowError"
    by (simp add: update_command_result_def)
next
  assume h: "table_ok self \<and> command_id \<in> sc_id ` set (rows self)"
  then obtain i where i: "i < length (rows self)" "sc_id (rows self ! i) = command_id"
    by (auto simp: in_set_conv_nth)
  have d: "distinct (map sc_id (rows self))"
    using h by (simp add: table_ok_def)
  have r: "int64 command_id"
    using h by (intro present_id_int64 [of self]) simp_all
  show "\<exists>i < length (rows self). sc_id (rows self ! i) = command_id
             \<and> update_command_result self command_id success output =
                 Inr (self\<lparr>rows := (rows self)
                        [i := (rows self ! i)\<lparr>sc_executed := True, sc_success := success,
                                               sc_output := output\<rparr>]\<rparr>)"
    using i r by (auto simp: update_command_result_def map_update_one [OF d i])
qed

theorem update_command_result_rows_witness:
  "7 \<notin> sc_id ` set (rows two_rows) \<and> int64 7
   \<and> update_command_result two_rows 7 True ''done'' = Inr two_rows
   \<and> \<not> int64 (2 ^ 63)
   \<and> update_command_result two_rows (2 ^ 63) True ''done'' = Inl OverflowError
   \<and> table_ok two_rows \<and> 2 \<in> sc_id ` set (rows two_rows)
   \<and> (\<exists>i < length (rows two_rows). sc_id (rows two_rows ! i) = 2
        \<and> update_command_result two_rows 2 True ''done'' =
            Inr (two_rows\<lparr>rows := (rows two_rows)
                   [i := (rows two_rows ! i)\<lparr>sc_executed := True, sc_success := True,
                                             sc_output := ''done''\<rparr>]\<rparr>))"
proof -
  have a: "7 \<notin> sc_id ` set (rows two_rows) \<and> int64 7"
    using int64_examples by (simp add: two_rows_eval)
  have b: "table_ok two_rows \<and> 2 \<in> sc_id ` set (rows two_rows)"
    by (simp add: table_ok_two_rows) (simp add: two_rows_eval)
  have c: "\<not> int64 (2 ^ 63)"
    using int64_examples by simp
  note t = update_command_result_rows [of two_rows 7 True "''done''", THEN conjunct2, THEN conjunct1]
  note u = update_command_result_rows [of two_rows "2 ^ 63" True "''done''",
                                       THEN conjunct2, THEN conjunct2, THEN conjunct1]
  note v = update_command_result_rows [of two_rows 2 True "''done''",
                                       THEN conjunct2, THEN conjunct2, THEN conjunct2]
  show ?thesis
    using t u v a b c by blast
qed

theorem update_command_result_not_found_counterexample:
  "get_command two_rows 7 = Inr None
   \<and> update_command_result two_rows 7 True ''done'' = Inr two_rows
   \<and> update_command_result two_rows 7 True ''done'' \<noteq> Inl NotFound"
  using int64_examples
  by (simp add: two_rows_eval update_command_result_def get_command_def)

text \<open>
  C10. For an id of a row of a table with distinct ids, \<open>update_command_result\<close> sets
  \<open>executed\<close> of that row to true whatever \<open>success\<close> is, sets its \<open>success\<close> and \<open>output\<close>
  to the arguments, and keeps its id, command, query, explanation, risk level and timestamp;
  the row is the only one with the id, and every other row is unchanged.
\<close>

theorem update_command_result_frame:
  assumes "table_ok self" and "command_id \<in> sc_id ` set (rows self)"
  shows "\<exists>self'. update_command_result self command_id success output = Inr self'
      \<and> sequence self' = sequence self
      \<and> length (rows self') = length (rows self)
      \<and> (\<exists>!i. i < length (rows self) \<and> sc_id (rows self ! i) = command_id)
      \<and> (\<forall>i < length (rows self).
            if sc_id (rows self ! i) = command_id
            then sc_executed (rows self' ! i) = True
               \<and> sc_success (rows self' ! i) = success
               \<and> sc_output (rows self' ! i) = output
               \<and> sc_id (rows self' ! i) = sc_id (rows self ! i)
               \<and> sc_command (rows self' ! i) = sc_command (rows self ! i)
               \<and> sc_query (rows self' ! i) = sc_query (rows self ! i)
               \<and> sc_explanation (rows self' ! i) = sc_explanation (rows self ! i)
               \<and> sc_risk_level (rows self' ! i) = sc_risk_level (rows self ! i)
               \<and> sc_timestamp (rows self' ! i) = sc_timestamp (rows self ! i)
            else rows self' ! i = rows self ! i)"
proof -
  have u: "\<exists>!i. i < length (rows self) \<and> sc_id (rows self ! i) = command_id"
    using assms by (intro unique_index) (simp_all add: table_ok_def)
  have r: "int64 command_id"
    using assms by (rule present_id_int64)
  show ?thesis
    using u r by (simp add: update_command_result_def)
qed

theorem update_command_result_frame_witness:
  "table_ok two_rows \<and> 2 \<in> sc_id ` set (rows two_rows)
   \<and> update_command_result two_rows 2 False ''timed out'' =
       Inr (two_rows\<lparr>rows :=
              [rows two_rows ! 0,
               (rows two_rows ! 1)\<lparr>sc_executed := True, sc_success := False,
                                    sc_output := ''timed out''\<rparr>]\<rparr>)
   \<and> (\<exists>self'. update_command_result two_rows 2 False ''timed out'' = Inr self'
        \<and> sc_executed (rows self' ! 1) = True \<and> sc_success (rows self' ! 1) = False
        \<and> rows self' ! 0 = rows two_rows ! 0)"
proof -
  have b: "table_ok two_rows" "2 \<in> sc_id ` set (rows two_rows)"
    by (simp add: table_ok_two_rows) (simp add: two_rows_eval)
  have e: "update_command_result two_rows 2 False ''timed out'' =
       Inr (two_rows\<lparr>rows :=
              [rows two_rows ! 0,
               (rows two_rows ! 1)\<lparr>sc_executed := True, sc_success := False,
                                    sc_output := ''timed out''\<rparr>]\<rparr>)"
    using int64_examples by (simp add: two_rows_eval update_command_result_def)
  obtain self' where s: "update_command_result two_rows 2 False ''timed out'' = Inr self'"
    and f: "\<forall>i < length (rows two_rows).
            if sc_id (rows two_rows ! i) = 2
            then sc_executed (rows self' ! i) = True
               \<and> sc_success (rows self' ! i) = False
               \<and> sc_output (rows self' ! i) = ''timed out''
               \<and> sc_id (rows self' ! i) = sc_id (rows two_rows ! i)
               \<and> sc_command (rows self' ! i) = sc_command (rows two_rows ! i)
               \<and> sc_query (rows self' ! i) = sc_query (rows two_rows ! i)
               \<and> sc_explanation (rows self' ! i) = sc_explanation (rows two_rows ! i)
               \<and> sc_risk_level (rows self' ! i) = sc_risk_level (rows two_rows ! i)
               \<and> sc_timestamp (rows self' ! i) = sc_timestamp (rows two_rows ! i)
            else rows self' ! i = rows two_rows ! i"
    using update_command_result_frame [OF b, of False "''timed out''"] by blast
  have l: "length (rows two_rows) = 2" "sc_id (rows two_rows ! 0) = 1" "sc_id (rows two_rows ! 1) = 2"
    by (simp_all add: two_rows_eval)
  from f [rule_format, of 1] l
  have "sc_executed (rows self' ! 1) = True \<and> sc_success (rows self' ! 1) = False"
    by simp
  moreover from f [rule_format, of 0] l have "rows self' ! 0 = rows two_rows ! 0"
    by simp
  ultimately show ?thesis
    using b e s by blast
qed

subsection \<open>The fallback of the parser\<close>

lemma fallback_lines_find:
  "fallback_lines ls query =
     (case find command_line ls of
        None \<Rightarrow> None
      | Some line \<Rightarrow>
          Some \<lparr>pr_command = strip line,
                pr_explanation = ''Generated command for: '' @ query,
                pr_risk_level = ''medium'',
                pr_confidence = 0.6,
                pr_alternatives = [],
                pr_warnings = [''Fallback parsing used - please verify command'']\<rparr>)"
  by (induction ls) (simp_all add: command_line_def Let_def)

lemma plain_response_lines:
  "split_lines (strip plain_response) = [''# list the files'', ''  ls -la  '', ''pwd'']"
  by code_simp

lemma plain_response_find:
  "find command_line (split_lines (strip plain_response)) = Some ''  ls -la  ''"
  by code_simp

lemma strip_example: "strip ''  ls -la  '' = ''ls -la''"
  by code_simp

lemma comment_only_find:
  "find command_line (split_lines (strip ''# no command here'')) = None"
  by code_simp

text \<open>
  C9, as the code has it. When \<open>json.loads\<close> fails on the response, the parser looks for
  the first line that, with the white space around it removed, is not empty and starts with
  neither \<open>#\<close> nor \<open>//\<close>. If there is one, the result has that line without the white space
  around it as its command, the confidence 0.6 and the one warning
  \<open>Fallback parsing used - please verify command\<close>, written with a hyphen. If there is no
  such line, the parser returns nothing and \<open>ask\<close> ends with exit status 1.
\<close>

theorem fallback_on_decode_error:
  assumes "llm e = Response response" and "loads e response = JSONDecodeError"
  shows "parse (llm e) (loads e) query =
           (case find command_line (split_lines (strip response)) of
              None \<Rightarrow> None
            | Some line \<Rightarrow>
                Some \<lparr>pr_command = strip line,
                      pr_explanation = ''Generated command for: '' @ query,
                      pr_risk_level = ''medium'',
                      pr_confidence = 0.6,
                      pr_alternatives = [],
                      pr_warnings = [''Fallback parsing used - please verify command'']\<rparr>)
       \<and> (find command_line (split_lines (strip response)) = None
            \<longrightarrow> ask e query execute dry_run w = (Exit1, w))"
proof -
  have p: "parse (llm e) (loads e) query = fallback_lines (split_lines (strip response)) query"
    using assms by (simp add: parse_def fallback_parse_def)
  show ?thesis
    unfolding p fallback_lines_find
    by (auto simp: ask_def p fallback_lines_find)
qed

theorem fallback_on_decode_error_witness:
  "llm (plain_env plain_response (\<lambda>_. Some True) TimeoutExpired) = Response plain_response
   \<and> loads (plain_env plain_response (\<lambda>_. Some True) TimeoutExpired) plain_response = JSONDecodeError
   \<and> parse (Response plain_response) (\<lambda>_. JSONDecodeError) ''list files'' =
       Some \<lparr>pr_command = ''ls -la'',
             pr_explanation = ''Generated command for: list files'',
             pr_risk_level = ''medium'',
             pr_confidence = 0.6,
             pr_alternatives = [],
             pr_warnings = [''Fallback parsing used - please verify command'']\<rparr>
   \<and> find command_line (split_lines (strip ''# no command here'')) = None
   \<and> ask (plain_env ''# no command here'' (\<lambda>_. Some True) TimeoutExpired) ''list files'' True False world0
       = (Exit1, world0)"
proof -
  have a: "llm (plain_env r (\<lambda>_. Some True) TimeoutExpired) = Response r
           \<and> loads (plain_env r (\<lambda>_. Some True) TimeoutExpired) r = JSONDecodeError" for r
    by (simp add: plain_env_def)
  show ?thesis
    using fallback_on_decode_error [OF a [of plain_response, THEN conjunct1]
                                       a [of plain_response, THEN conjunct2],
                                    of "''list files''" True False world0, THEN conjunct1]
      fallback_on_decode_error [OF a [of "''# no command here''", THEN conjunct1]
                                   a [of "''# no command here''", THEN conjunct2],
                                of "''list files''" True False world0, THEN conjunct2]
      a [of plain_response]
    by (simp add: plain_response_find strip_example comment_only_find plain_env_def)
qed

lemma ask_no_command:
  "ask comment_env ''list files'' True False world0 = (Exit1, world0)"
  by code_simp

lemma parse_no_command:
  "parse (llm comment_env) (loads comment_env) ''list files'' = None"
  by code_simp

lemma parse_ls_warnings:
  "map_option pr_warnings (parse (llm ls_env) (loads ls_env) ''list files'')
     = Some [''Fallback parsing used - please verify command'']"
  by code_simp

lemma warning_ascii:
  "ascii ''Fallback parsing used - please verify command''"
  by code_simp

theorem fallback_counterexample:
  "llm comment_env = Response ''# no command here''
   \<and> loads comment_env ''# no command here'' = JSONDecodeError
   \<and> parse (llm comment_env) (loads comment_env) ''list files'' = None
   \<and> ask comment_env ''list files'' True False world0 = (Exit1, world0)
   \<and> llm ls_env = Response ''ls -la''
   \<and> loads ls_env ''ls -la'' = JSONDecodeError
   \<and> map_option pr_warnings (parse (llm ls_env) (loads ls_env) ''list files'')
       = Some [''Fallback parsing used - please verify command'']
   \<and> ascii ''Fallback parsing used - please verify command''"
  using ask_no_command parse_no_command parse_ls_warnings warning_ascii
  by (simp add: comment_env_def ls_env_def plain_env_def)

subsection \<open>The request pipeline\<close>

lemma shell_log_store_in_history [simp]:
  "shell_log (store_in_history e query result b w) = shell_log w"
  by (simp add: store_in_history_def)

lemma asked_store_in_history [simp]:
  "asked (store_in_history e query result b w) = asked w"
  by (simp add: store_in_history_def)

lemma command_store_store_in_history [simp]:
  "command_store (store_in_history e query result b w) = command_store w"
  by (simp add: store_in_history_def)

lemma context_manager_store_in_history [simp]:
  "context_manager (store_in_history e query result b w) =
     add_to_history (context_manager w) query (pr_command result) (now e) b"
  by (simp add: store_in_history_def)

lemma shell_log_run_approved [simp]:
  "shell_log (run_approved e query result ra w) = shell_log w @ [pr_command result]"
  by (cases "shell e (pr_command result)")
     (simp_all add: run_approved_def execute_command_def store_command_def Let_def)

lemma asked_run_approved [simp]:
  "asked (run_approved e query result ra w) = asked w"
  by (cases "shell e (pr_command result)")
     (simp_all add: run_approved_def execute_command_def store_command_def Let_def)

lemma run_approved_timeout:
  "shell e (pr_command result) = TimeoutExpired \<Longrightarrow>
   run_approved e query result ra w = w\<lparr>shell_log := shell_log w @ [pr_command result]\<rparr>"
  by (simp add: run_approved_def execute_command_def Let_def)

lemma prompts_differ: "execute_prompt \<noteq> critical_prompt"
  by (simp add: execute_prompt_def critical_prompt_def)


lemma ask_execute_critical:
  assumes "parse (llm e) (loads e) query = Some result"
    and "risk_level (validate (safety_validator e) (pr_command result)) = ''critical''"
  shows "ask e query True False w =
           (case confirm e critical_prompt of
              None \<Rightarrow> (Exit1, w\<lparr>asked := asked w @ [critical_prompt]\<rparr>)
            | Some False \<Rightarrow> (Returned, w\<lparr>asked := asked w @ [critical_prompt]\<rparr>)
            | Some True \<Rightarrow>
                (Returned, store_in_history e query result True
                   (run_approved e query result (validate (safety_validator e) (pr_command result))
                      (w\<lparr>asked := asked w @ [critical_prompt]\<rparr>))))"
  using assms by (simp add: ask_def Let_def Confirm_ask_def split: option.split bool.split)

lemma ask_confirm_critical:
  assumes "parse (llm e) (loads e) query = Some result"
    and "risk_level (validate (safety_validator e) (pr_command result)) = ''critical''"
  shows "ask e query False False w =
           (case confirm e execute_prompt of
              None \<Rightarrow> (Exit1, w\<lparr>asked := asked w @ [execute_prompt]\<rparr>)
            | Some False \<Rightarrow>
                (Returned, store_in_history e query result False
                             (w\<lparr>asked := asked w @ [execute_prompt]\<rparr>))
            | Some True \<Rightarrow>
                (case confirm e critical_prompt of
                   None \<Rightarrow> (Exit1, w\<lparr>asked := asked w @ [execute_prompt, critical_prompt]\<rparr>)
                 | Some False \<Rightarrow> (Returned, w\<lparr>asked := asked w @ [execute_prompt, critical_prompt]\<rparr>)
                 | Some True \<Rightarrow>
                     (Returned, store_in_history e query result True
                        (run_approved e query result (validate (safety_validator e) (pr_command result))
                           (w\<lparr>asked := asked w @ [execute_prompt, critical_prompt]\<rparr>)))))"
  using assms by (simp add: ask_def Let_def Confirm_ask_def split: option.split bool.split)

lemma ask_approved:
  assumes "parse (llm e) (loads e) query = Some result"
    and "execute \<or> confirm e execute_prompt = Some True"
    and "risk_level (validate (safety_validator e) (pr_command result)) = ''critical''
         \<longrightarrow> confirm e critical_prompt = Some True"
  shows "\<exists>w'. shell_log w' = shell_log w \<and> command_store w' = command_store w
            \<and> context_manager w' = context_manager w
            \<and> ask e query execute False w =
                (Returned, store_in_history e query result True
                   (run_approved e query result (validate (safety_validator e) (pr_command result)) w'))"
proof (cases execute)
  case True
  show ?thesis
  proof (cases "risk_level (validate (safety_validator e) (pr_command result)) = ''critical''")
    case c: True
    with assms(3) have "confirm e critical_prompt = Some True" by simp
    then show ?thesis
      using True by (simp add: ask_execute_critical [OF assms(1) c])
        (rule exI [of _ "w\<lparr>asked := asked w @ [critical_prompt]\<rparr>"], simp)
  next
    case False
    then show ?thesis
      using True assms(1) by (simp add: ask_def Let_def) (rule exI [of _ w], simp)
  qed
next
  case False
  with assms(2) have x: "confirm e execute_prompt = Some True" by simp
  show ?thesis
  proof (cases "risk_level (validate (safety_validator e) (pr_command result)) = ''critical''")
    case c: True
    with assms(3) have "confirm e critical_prompt = Some True" by simp
    then show ?thesis
      using False x by (simp add: ask_confirm_critical [OF assms(1) c])
        (rule exI [of _ "w\<lparr>asked := asked w @ [execute_prompt, critical_prompt]\<rparr>"], simp)
  next
    case nc: False
    then show ?thesis
      using False x assms(1)
      by (simp add: ask_def Let_def Confirm_ask_def)
        (rule exI [of _ "w\<lparr>asked := asked w @ [execute_prompt]\<rparr>"], simp)
  qed
qed











lemma sleep_env_parse: "parse (llm sleep_env) (loads sleep_env) ''wait a minute'' = Some sleep_result"
  by (simp add: sleep_env_def plain_env_def sleep_result_def parse_def fallback_parse_def fallback_lines_find)
     code_simp

lemma sleep_env_level:
  "risk_level (validate (safety_validator sleep_env) (pr_command sleep_result)) = ''low''"
  by code_simp

text \<open>
  C6, as the code has it. When the shell does not finish an approved command within the
  timeout, \<open>_execute_command\<close> returns false, \<open>ask\<close> returns normally, the command store is
  left as it was (a record is written only after a successful run), the history gets an
  entry marked executed, and the command was handed to the shell once.
\<close>

theorem timeout_not_recorded:
  assumes "parse (llm e) (loads e) query = Some result"
    and "shell e (pr_command result) = TimeoutExpired"
    and "execute \<or> confirm e execute_prompt = Some True"
    and "risk_level (validate (safety_validator e) (pr_command result)) = ''critical''
         \<longrightarrow> confirm e critical_prompt = Some True"
  shows "fst (execute_command e (pr_command result) w) = False
       \<and> fst (ask e query execute False w) = Returned
       \<and> command_store (snd (ask e query execute False w)) = command_store w
       \<and> shell_log (snd (ask e query execute False w)) = shell_log w @ [pr_command result]
       \<and> context_manager (snd (ask e query execute False w)) =
           add_to_history (context_manager w) query (pr_command result) (now e) True"
proof -
  obtain w' where w': "shell_log w' = shell_log w" "command_store w' = command_store w"
      "context_manager w' = context_manager w"
      "ask e query execute False w =
         (Returned, store_in_history e query result True
            (run_approved e query result (validate (safety_validator e) (pr_command result)) w'))"
    using ask_approved [OF assms(1,3,4)] by blast
  have "fst (execute_command e (pr_command result) w) = False"
    using assms(2) by (simp add: execute_command_def Let_def)
  then show ?thesis
    by (simp add: w' run_approved_timeout [OF assms(2)])
qed

theorem timeout_not_recorded_witness:
  "parse (llm sleep_env) (loads sleep_env) ''wait a minute'' = Some sleep_result
   \<and> shell sleep_env (pr_command sleep_result) = TimeoutExpired
   \<and> risk_level (validate (safety_validator sleep_env) (pr_command sleep_result)) \<noteq> ''critical''
   \<and> fst (ask sleep_env ''wait a minute'' True False world0) = Returned
   \<and> command_store (snd (ask sleep_env ''wait a minute'' True False world0)) = initialize_database
   \<and> shell_log (snd (ask sleep_env ''wait a minute'' True False world0)) = [''sleep 60'']
   \<and> history (context_manager (snd (ask sleep_env ''wait a minute'' True False world0))) =
       [\<lparr>hi_query = ''wait a minute'', hi_command = ''sleep 60'', hi_timestamp = 0,
         hi_executed = True\<rparr>]"
proof -
  have t: "shell sleep_env (pr_command sleep_result) = TimeoutExpired"
    by (simp add: sleep_env_def plain_env_def)
  have c: "risk_level (validate (safety_validator sleep_env) (pr_command sleep_result)) = ''critical''
           \<longrightarrow> confirm sleep_env critical_prompt = Some True"
    by (simp add: sleep_env_level)
  have x: "True \<or> confirm sleep_env execute_prompt = Some True" by simp
  show ?thesis
    using timeout_not_recorded [OF sleep_env_parse t x c, of world0] sleep_env_parse t
    by (simp add: sleep_env_level)
       (simp add: world0_def sleep_result_def add_to_history_def add_interaction_def Let_def
          sleep_env_def plain_env_def)
qed

lemma sleep_env_eval:
  "ask sleep_env ''wait a minute'' True False world0 =
     (Returned,
      world0\<lparr>context_manager :=
               \<lparr>max_history = 50,
                history = [\<lparr>hi_query = ''wait a minute'', hi_command = ''sleep 60'',
                            hi_timestamp = 0, hi_executed = True\<rparr>]\<rparr>,
             shell_log := [''sleep 60'']\<rparr>)"
  by code_simp

theorem timeout_record_counterexample:
  "shell sleep_env ''sleep 60'' = TimeoutExpired
   \<and> shell_log (snd (ask sleep_env ''wait a minute'' True False world0)) = [''sleep 60'']
   \<and> rows (command_store (snd (ask sleep_env ''wait a minute'' True False world0))) = []"
  by (simp add: sleep_env_eval)
     (simp add: world0_def initialize_database_def sleep_env_def plain_env_def)

lemma rm_declined_eval:
  "ask rm_declined_env ''wipe the disk'' False False world0 =
     (Returned, world0\<lparr>asked := [execute_prompt, critical_prompt]\<rparr>)"
  by code_simp

lemma ls_env_eval:
  "history (context_manager (snd (ask ls_env ''list files'' True False world0))) =
     [\<lparr>hi_query = ''list files'', hi_command = ''ls -la'', hi_timestamp = 0, hi_executed = False\<rparr>,
      \<lparr>hi_query = ''list files'', hi_command = ''ls -la'', hi_timestamp = 0, hi_executed = True\<rparr>]"
  by code_simp

text \<open>
  C7, where the code departs from it. The user grants the first prompt and declines the
  prompt for critical commands: \<open>ask\<close> returns at once and the history stays empty. And a
  run that succeeds leaves two entries for the one request, the first marked not executed.
\<close>

theorem critical_decline_skips_history:
  "confirm rm_declined_env execute_prompt = Some True
   \<and> confirm rm_declined_env critical_prompt = Some False
   \<and> history (context_manager world0) = []
   \<and> fst (ask rm_declined_env ''wipe the disk'' False False world0) = Returned
   \<and> history (context_manager (snd (ask rm_declined_env ''wipe the disk'' False False world0))) = []
   \<and> history (context_manager (snd (ask ls_env ''list files'' True False world0))) =
       [\<lparr>hi_query = ''list files'', hi_command = ''ls -la'', hi_timestamp = 0, hi_executed = False\<rparr>,
        \<lparr>hi_query = ''list files'', hi_command = ''ls -la'', hi_timestamp = 0, hi_executed = True\<rparr>]"
  by (simp add: rm_declined_eval ls_env_eval)
     (simp add: rm_declined_env_def plain_env_def world0_def prompts_differ [symmetric])

subsection \<open>Monotonicity and determinism of the score\<close>

lemma scan_patterns_append:
  "scan_patterns (ps @ qs) c st = scan_patterns qs c (scan_patterns ps c st)"
proof (induction ps arbitrary: st)
  case Nil
  show ?case by simp
next
  case (Cons a ps)
  obtain p cfg where a: "a = (p, cfg)" by (cases a)
  obtain w b m s where st: "st = (w, b, m, s)" by (cases st)
  show ?case by (simp add: a st Cons.IH)
qed

lemma sum_scores_nonneg: "0 \<le> (\<Sum>(p, cfg) \<leftarrow> ms. risk_level_score (risk cfg) * 10)"
  by (rule sum_list_nonneg) (auto simp: less_imp_le [OF risk_level_score_pos])

lemma running_score_scan: "running_score st \<le> running_score (scan_patterns ps c st)"
proof -
  obtain w b m s where st: "st = (w, b, m, s)" by (cases st)
  show ?thesis
    unfolding st scan_patterns_eq running_score_def
    using sum_scores_nonneg [of "filter (\<lambda>(p, cfg). re_search True p c) ps"] by simp
qed

lemma subseq_sum_le:
  fixes f :: "'a \<Rightarrow> int"
  assumes "subseq xs ys" and "\<forall>y \<in> set ys. 0 \<le> f y"
  shows "sum_list (map f xs) \<le> sum_list (map f ys)"
  using assms
proof (induction rule: list_emb.induct)
  case (list_emb_Nil ys)
  then have "0 \<le> sum_list (map f ys)"
    by (intro sum_list_nonneg) auto
  then show ?case by simp
next
  case (list_emb_Cons xs ys y)
  then show ?case by (simp add: add_increasing)
next
  case (list_emb_Cons2 x y xs ys)
  then show ?case by simp
qed

lemma matched_rules_mono:
  assumes "subseq (dangerous_patterns a) (dangerous_patterns b)"
  shows "(\<Sum>(p, cfg) \<leftarrow> matched_rules a c. weight (risk cfg) * 10)
         \<le> (\<Sum>(p, cfg) \<leftarrow> matched_rules b c. weight (risk cfg) * 10)"
  unfolding matched_rules_def
  by (rule subseq_sum_le [OF subseq_filter [OF assms]])
     (auto simp: weight_score less_imp_le [OF risk_level_score_pos])

lemma fired_heuristics_mono:
  assumes "set (system_paths a) \<subseteq> set (system_paths b)"
    and "set (destructive_commands a) \<subseteq> set (destructive_commands b)"
  shows "length (filter id (fired_heuristics a c)) \<le> length (filter id (fired_heuristics b c))"
  unfolding fired_heuristics_def count6
  using assms by (intro add_mono) auto

lemma spec_score_mono:
  assumes "subseq (dangerous_patterns a) (dangerous_patterns b)"
    and "set (system_paths a) \<subseteq> set (system_paths b)"
    and "set (destructive_commands a) \<subseteq> set (destructive_commands b)"
  shows "spec_score a c \<le> spec_score b c"
  unfolding spec_score_def
  using matched_rules_mono [OF assms(1), of c] fired_heuristics_mono [OF assms(2,3), of c]
  by simp

lemma fired_heuristics_sets:
  assumes "set (system_paths a) = set (system_paths b)"
    and "set (destructive_commands a) = set (destructive_commands b)"
  shows "fired_heuristics a c = fired_heuristics b c"
  using assms by (simp add: fired_heuristics_def)

lemma init_same_sets:
  assumes "iteration_of system_paths_literal p1" and "iteration_of system_paths_literal p2"
    and "iteration_of destructive_commands_literal d1"
    and "iteration_of destructive_commands_literal d2"
  shows "matched_rules (SafetyValidator_init p1 d1) c = matched_rules (SafetyValidator_init p2 d2) c
       \<and> fired_heuristics (SafetyValidator_init p1 d1) c = fired_heuristics (SafetyValidator_init p2 d2) c"
  using assms
  by (simp add: matched_rules_def fired_heuristics_def SafetyValidator_init_def iteration_of_def)

lemma usr_first_order: "iteration_of system_paths_literal paths_usr_first"
  by (simp add: iteration_of_def system_paths_literal_def paths_usr_first_def) code_simp

lemma two_paths_etc:
  "warnings (validate validator0 two_paths_command) = [''Operating on system directory: /etc'']"
  by code_simp

lemma two_paths_usr:
  "warnings (validate (SafetyValidator_init paths_usr_first destructive_commands_literal)
       two_paths_command) = [''Operating on system directory: /usr'']"
  by code_simp

lemma sudo_rm_scores:
  "score (validate empty_validator sudo_rm_command) = 5
   \<and> score (validate validator0 sudo_rm_command) = 100"
  by code_simp

lemma sudo_rm_first_path:
  "find (\<lambda>path. isin path sudo_rm_command) system_paths_literal = Some ''/etc''
   \<and> find (\<lambda>path. isin path sudo_rm_command) paths_usr_first = Some ''/etc''"
  by code_simp

lemma validate_same_first_path:
  assumes "iteration_of destructive_commands_literal d1"
    and "iteration_of destructive_commands_literal d2"
    and "find (\<lambda>path. isin path c) p1 = find (\<lambda>path. isin path c) p2"
  shows "validate (SafetyValidator_init p1 d1) c = validate (SafetyValidator_init p2 d2) c"
proof -
  have "list_ex (\<lambda>cmd. isin cmd c) d1 = list_ex (\<lambda>cmd. isin cmd c) d2"
    using assms(1,2) by (simp add: list_ex_iff iteration_of_def)
  then have "heuristic_checks (SafetyValidator_init p1 d1) c
             = heuristic_checks (SafetyValidator_init p2 d2) c"
    using assms(3) by (intro heuristic_checks_cong) (simp_all add: SafetyValidator_init_def)
  then show ?thesis
    by (intro validate_cong) (simp_all add: SafetyValidator_init_def)
qed

text \<open>
  C4, as the code has it. Every rule contributes a positive amount; the score kept by the
  loop over the rules is never lowered by a further rule; the score returned is that score
  plus five for each warning of the heuristic checks, cut off at 100, and it does not get
  lower when rules are added to the table or members to the two sets that the heuristic
  checks read. Two validators built by \<open>__init__\<close> give the same score, level, matched
  patterns and number of warnings for a command, and the same assessment altogether when
  the first system path found in the command is the same for both; that path depends on
  the order in which the set of system paths is iterated.
\<close>

theorem score_monotone:
  "0 < risk_level_score r * 10
   \<and> running_score st \<le> running_score (scan_patterns ps c st)
   \<and> running_score (scan_patterns ps c st) \<le> running_score (scan_patterns (ps @ qs) c st)
   \<and> score (validate self c) =
       min (running_score (scan_patterns (dangerous_patterns self) c ([], [], LOW, 0))
            + int (length (heuristic_checks self c)) * 5) 100
   \<and> (subseq (dangerous_patterns a) (dangerous_patterns b)
        \<and> set (system_paths a) \<subseteq> set (system_paths b)
        \<and> set (destructive_commands a) \<subseteq> set (destructive_commands b)
      \<longrightarrow> score (validate a c) \<le> score (validate b c))
   \<and> (iteration_of system_paths_literal p1 \<and> iteration_of system_paths_literal p2
        \<and> iteration_of destructive_commands_literal d1
        \<and> iteration_of destructive_commands_literal d2
      \<longrightarrow> score (validate (SafetyValidator_init p1 d1) c)
            = score (validate (SafetyValidator_init p2 d2) c)
          \<and> risk_level (validate (SafetyValidator_init p1 d1) c)
            = risk_level (validate (SafetyValidator_init p2 d2) c)
          \<and> blocked_patterns (validate (SafetyValidator_init p1 d1) c)
            = blocked_patterns (validate (SafetyValidator_init p2 d2) c)
          \<and> length (warnings (validate (SafetyValidator_init p1 d1) c))
            = length (warnings (validate (SafetyValidator_init p2 d2) c)))
   \<and> (iteration_of destructive_commands_literal d1
        \<and> iteration_of destructive_commands_literal d2
        \<and> find (\<lambda>path. isin path c) p1 = find (\<lambda>path. isin path c) p2
      \<longrightarrow> validate (SafetyValidator_init p1 d1) c = validate (SafetyValidator_init p2 d2) c)"
proof (intro conjI impI)
  show "0 < risk_level_score r * 10"
    using risk_level_score_pos [of r] by simp
  show "score (validate self c) =
       min (running_score (scan_patterns (dangerous_patterns self) c ([], [], LOW, 0))
            + int (length (heuristic_checks self c)) * 5) 100"
    by (simp add: validate_def running_score_def Let_def split: prod.split)
  show "running_score st \<le> running_score (scan_patterns ps c st)"
    by (rule running_score_scan)
  show "running_score (scan_patterns ps c st) \<le> running_score (scan_patterns (ps @ qs) c st)"
    unfolding scan_patterns_append by (rule running_score_scan)
next
  assume "subseq (dangerous_patterns a) (dangerous_patterns b)
        \<and> set (system_paths a) \<subseteq> set (system_paths b)
        \<and> set (destructive_commands a) \<subseteq> set (destructive_commands b)"
  then show "score (validate a c) \<le> score (validate b c)"
    by (simp add: validate_score spec_score_mono)
next
  assume h: "iteration_of system_paths_literal p1 \<and> iteration_of system_paths_literal p2
        \<and> iteration_of destructive_commands_literal d1
        \<and> iteration_of destructive_commands_literal d2"
  then have e: "matched_rules (SafetyValidator_init p1 d1) c = matched_rules (SafetyValidator_init p2 d2) c"
    "fired_heuristics (SafetyValidator_init p1 d1) c = fired_heuristics (SafetyValidator_init p2 d2) c"
    using init_same_sets [of p1 p2 d1 d2 c] by simp_all
  then have s: "spec_score (SafetyValidator_init p1 d1) c = spec_score (SafetyValidator_init p2 d2) c"
    by (simp add: spec_score_def)
  show "score (validate (SafetyValidator_init p1 d1) c) = score (validate (SafetyValidator_init p2 d2) c)"
    by (simp add: validate_score s)
  show "risk_level (validate (SafetyValidator_init p1 d1) c)
            = risk_level (validate (SafetyValidator_init p2 d2) c)"
    by (simp add: validate_level spec_level_def s e)
  show "blocked_patterns (validate (SafetyValidator_init p1 d1) c)
            = blocked_patterns (validate (SafetyValidator_init p2 d2) c)"
    by (simp add: validate_blocked_patterns e)
  show "length (warnings (validate (SafetyValidator_init p1 d1) c))
            = length (warnings (validate (SafetyValidator_init p2 d2) c))"
    by (simp add: validate_warnings heuristic_checks_length e)
next
  assume "iteration_of destructive_commands_literal d1
        \<and> iteration_of destructive_commands_literal d2
        \<and> find (\<lambda>path. isin path c) p1 = find (\<lambda>path. isin path c) p2"
  then show "validate (SafetyValidator_init p1 d1) c = validate (SafetyValidator_init p2 d2) c"
    by (intro validate_same_first_path) simp_all
qed

theorem score_monotone_witness:
  "subseq (dangerous_patterns empty_validator) (dangerous_patterns validator0)
   \<and> set (system_paths empty_validator) \<subseteq> set (system_paths validator0)
   \<and> set (destructive_commands empty_validator) \<subseteq> set (destructive_commands validator0)
   \<and> score (validate empty_validator sudo_rm_command) = 5
   \<and> score (validate validator0 sudo_rm_command) = 100
   \<and> score (validate empty_validator sudo_rm_command) \<le> score (validate validator0 sudo_rm_command)
   \<and> iteration_of system_paths_literal system_paths_literal
   \<and> iteration_of system_paths_literal paths_usr_first
   \<and> iteration_of destructive_commands_literal destructive_commands_literal
   \<and> score (validate (SafetyValidator_init system_paths_literal destructive_commands_literal)
              two_paths_command)
       = score (validate (SafetyValidator_init paths_usr_first destructive_commands_literal)
                  two_paths_command)
   \<and> length (warnings (validate (SafetyValidator_init system_paths_literal
                                    destructive_commands_literal) two_paths_command))
       = length (warnings (validate (SafetyValidator_init paths_usr_first
                                       destructive_commands_literal) two_paths_command))
   \<and> find (\<lambda>path. isin path sudo_rm_command) system_paths_literal
       = find (\<lambda>path. isin path sudo_rm_command) paths_usr_first
   \<and> validate (SafetyValidator_init system_paths_literal destructive_commands_literal)
         sudo_rm_command
       = validate (SafetyValidator_init paths_usr_first destructive_commands_literal)
           sudo_rm_command"
proof -
  have a: "subseq (dangerous_patterns empty_validator) (dangerous_patterns validator0)
   \<and> set (system_paths empty_validator) \<subseteq> set (system_paths validator0)
   \<and> set (destructive_commands empty_validator) \<subseteq> set (destructive_commands validator0)"
    by (simp add: empty_validator_def)
  have b: "iteration_of system_paths_literal system_paths_literal
        \<and> iteration_of system_paths_literal paths_usr_first
        \<and> iteration_of destructive_commands_literal destructive_commands_literal
        \<and> iteration_of destructive_commands_literal destructive_commands_literal"
    using literal_orders usr_first_order by simp
  note t = score_monotone [where a = empty_validator and b = validator0 and c = sudo_rm_command,
                           THEN conjunct2, THEN conjunct2, THEN conjunct2, THEN conjunct2,
                           THEN conjunct1]
  note u = score_monotone [where c = two_paths_command and ?p1.0 = system_paths_literal
                             and ?p2.0 = paths_usr_first and ?d1.0 = destructive_commands_literal
                             and ?d2.0 = destructive_commands_literal,
                           THEN conjunct2, THEN conjunct2, THEN conjunct2, THEN conjunct2,
                           THEN conjunct2, THEN conjunct1]
  note v = score_monotone [where c = sudo_rm_command and ?p1.0 = system_paths_literal
                             and ?p2.0 = paths_usr_first and ?d1.0 = destructive_commands_literal
                             and ?d2.0 = destructive_commands_literal,
                           THEN conjunct2, THEN conjunct2, THEN conjunct2, THEN conjunct2,
                           THEN conjunct2, THEN conjunct2]
  have f: "find (\<lambda>path. isin path sudo_rm_command) system_paths_literal
           = find (\<lambda>path. isin path sudo_rm_command) paths_usr_first"
    using sudo_rm_first_path by simp
  show ?thesis
    using t u v a b f sudo_rm_scores by simp
qed

theorem warnings_order_counterexample:
  "iteration_of system_paths_literal system_paths_literal
   \<and> iteration_of system_paths_literal paths_usr_first
   \<and> warnings (validate (SafetyValidator_init system_paths_literal destructive_commands_literal)
                 two_paths_command) = [''Operating on system directory: /etc'']
   \<and> warnings (validate (SafetyValidator_init paths_usr_first destructive_commands_literal)
                 two_paths_command) = [''Operating on system directory: /usr'']"
  using literal_orders usr_first_order two_paths_etc two_paths_usr
  by (simp add: validator0_def)

end
